theory Spec2Isabelle
  imports Complex_Main "HOL-Library.Sublist" "HOL-Library.Multiset"
begin

section \<open>Tables\<close>

text \<open>
  The dashboard (\<^verbatim>\<open>app.py\<close>) works on pandas data frames. A frame is modelled by its
  column list (name and dtype, in column order) and its rows in order; a row maps column
  names to scalars. A scalar is a missing value (NaN, NaT, None), a number, a text or a
  time stamp: wall-clock seconds with an optional zone offset. Numbers are rationals, which
  hold every 64-bit integer and every finite double exactly.
\<close>

datatype cell = NA | Num rat | Str string | Ts int "int option"

datatype dtype = ObjectT | NumericT | DatetimeT | CategoryT

type_synonym row = "(string \<times> cell) list"

record table =
  columns :: "(string \<times> dtype) list"
  rows :: "row list"

datatype error =
    KeyError string
  | ValueError
  | TypeError
  | PatternError string
  | OverflowError
  | LoadError

definition names :: "table \<Rightarrow> string list" where
  "names df = map fst (columns df)"

definition dtype_of :: "table \<Rightarrow> string \<Rightarrow> dtype" where
  "dtype_of df c = (case map_of (columns df) c of Some d \<Rightarrow> d | None \<Rightarrow> ObjectT)"

definition cell_at :: "row \<Rightarrow> string \<Rightarrow> cell" where
  "cell_at r c = (case map_of r c of Some v \<Rightarrow> v | None \<Rightarrow> NA)"

text \<open>\<^verbatim>\<open>df[col]\<close>: the values of one column, in row order.\<close>

definition series :: "table \<Rightarrow> string \<Rightarrow> cell list" where
  "series df c = map (\<lambda>r. cell_at r c) (rows df)"

text \<open>\<^verbatim>\<open>Series.unique()\<close>: the distinct values in order of first appearance, a missing
  value included. \<^verbatim>\<open>Series.nunique()\<close>: the number of distinct values, missing ones
  not counted.\<close>

fun unique :: "'a list \<Rightarrow> 'a list" where
  "unique [] = []"
| "unique (x # xs) = x # unique (filter (\<lambda>y. y \<noteq> x) xs)"

definition nunique :: "cell list \<Rightarrow> nat" where
  "nunique vs = length (unique (filter (\<lambda>v. v \<noteq> NA) vs))"

fun numbers :: "cell list \<Rightarrow> rat list" where
  "numbers [] = []"
| "numbers (Num x # vs) = x # numbers vs"
| "numbers (v # vs) = numbers vs"

fun stamps :: "cell list \<Rightarrow> int list" where
  "stamps [] = []"
| "stamps (Ts w z # vs) = w # stamps vs"
| "stamps (v # vs) = stamps vs"



section \<open>The library and the user\<close>

text \<open>
  Two library calls are parameters of the model: \<^verbatim>\<open>pd.to_datetime\<close> on one value
  (\<open>None\<close>: the value does not parse, the call raises) and the compilation of a search
  pattern by \<^verbatim>\<open>Series.str.contains\<close> (\<open>None\<close>: the pattern is not valid, the call
  raises \<^verbatim>\<open>re.error\<close>; otherwise the test a text has to pass).
\<close>

record lib =
  to_datetime :: "cell \<Rightarrow> cell option"
  re_search :: "string \<Rightarrow> (string \<Rightarrow> bool) option"

text \<open>
  A widget call of the source is a value that records the arguments of the call; the user
  is the function that answers it. \<^verbatim>\<open>st.checkbox("Add filters")\<close> is \<open>checkbox\<close>,
  \<^verbatim>\<open>st.multiselect("Filter dataframe on", df.columns)\<close> is \<open>choose_columns\<close>, and
  \<open>radio\<close> is the view chosen on the main page.
\<close>

datatype widget =
    Multiselect string "cell list" "cell list"
  | Slider string rat rat "rat \<times> rat" "rat option"
  | DateInput string "int \<times> int"
  | TextInput string

record ui =
  checkbox :: bool
  choose_columns :: "string list \<Rightarrow> string list"
  multiselect :: "widget \<Rightarrow> cell list"
  slider :: "widget \<Rightarrow> rat \<times> rat"
  date_input :: "widget \<Rightarrow> int list"
  text_input :: "widget \<Rightarrow> string"
  radio :: string

section \<open>\<^verbatim>\<open>filter_dataframe\<close>\<close>

subsection \<open>The normalisation pass\<close>

text \<open>\<^verbatim>\<open>df[col] = f(df[col])\<close>: one column gets new values and a new dtype.\<close>

definition set_column :: "table \<Rightarrow> string \<Rightarrow> dtype \<Rightarrow> (cell \<Rightarrow> cell) \<Rightarrow> table" where
  "set_column df c d f =
     df\<lparr>columns := map (\<lambda>(k, e). if k = c then (k, d) else (k, e)) (columns df),
        rows := map (map (\<lambda>(k, v). if k = c then (k, f v) else (k, v))) (rows df)\<rparr>"

text \<open>\<^verbatim>\<open>Series.dt.tz_localize(None)\<close> keeps the wall-clock time and drops the zone.\<close>

fun tz_localize_None :: "cell \<Rightarrow> cell" where
  "tz_localize_None (Ts w z) = Ts w None"
| "tz_localize_None v = v"

text \<open>
  One round of the loop over \<^verbatim>\<open>df.columns\<close> (lines 369 to 377): an object column is
  converted when every value parses, and left as it is when \<^verbatim>\<open>pd.to_datetime\<close> raises
  (\<^verbatim>\<open>except Exception: pass\<close>); a date-time column then loses its zone.
\<close>

definition normalize_column :: "lib \<Rightarrow> table \<Rightarrow> string \<Rightarrow> table" where
  "normalize_column L df col =
     (let df1 =
        (if dtype_of df col = ObjectT then
           (if list_all (\<lambda>v. to_datetime L v \<noteq> None) (series df col)
            then set_column df col DatetimeT (\<lambda>v. the (to_datetime L v))
            else df)
         else df)
      in if dtype_of df1 col = DatetimeT
         then set_column df1 col DatetimeT tz_localize_None
         else df1)"

definition normalize :: "lib \<Rightarrow> table \<Rightarrow> table" where
  "normalize L df = foldl (normalize_column L) df (names df)"

subsection \<open>One selected column\<close>

datatype kind = Categorical | Numeric | DateTime | Text

text \<open>The chain of tests of lines 387, 394, 406 and 418, in the order of the source.\<close>

definition column_kind :: "table \<Rightarrow> string \<Rightarrow> kind" where
  "column_kind df column =
     (if dtype_of df column = CategoryT \<or> nunique (series df column) < 20 then Categorical
      else if dtype_of df column = NumericT then Numeric
      else if dtype_of df column = DatetimeT then DateTime
      else Text)"

subsection \<open>Doubles\<close>

text \<open>
  \<^verbatim>\<open>float()\<close>, \<^verbatim>\<open>-\<close> and \<^verbatim>\<open>/\<close> on lines 395 to 397 work on IEEE 754 doubles. A
  finite double is modelled by its exact rational value, and every operation yields the
  exact result rounded to the nearest double, a tie going to the even significand.
  \<open>round_double\<close> is that rounding: the significand \<open>m\<close> has 53 bits, below the normal
  range the spacing stays that of the smallest exponent, and \<open>None\<close> stands for a result
  of \<open>pow2 1024\<close> or more in size, beyond the largest double, where
  \<^verbatim>\<open>float()\<close> raises \<^verbatim>\<open>OverflowError\<close> and the subtraction yields infinity.
\<close>

text \<open>The number of binary digits of a positive integer.\<close>

function bitlen :: "int \<Rightarrow> int" where
  "bitlen n = (if n \<le> 0 then 0 else 1 + bitlen (n div 2))"
  by pat_completeness auto
termination
  by (relation "measure nat") auto

declare bitlen.simps [simp del]

definition pow2 :: "int \<Rightarrow> rat" where
  "pow2 e = (if 0 \<le> e then 2 ^ nat e else 1 / 2 ^ nat (- e))"

text \<open>The exponent of the binade of \<open>x \<noteq> 0\<close>, the largest \<open>a\<close> with \<open>pow2 a \<le> \<bar>x\<bar>\<close>:
  the bit lengths of numerator and denominator give it up to one.\<close>

definition log2_floor :: "rat \<Rightarrow> int" where
  "log2_floor x =
     (case quotient_of \<bar>x\<bar> of
        (p, q) \<Rightarrow>
          (let a = bitlen p - bitlen q
           in if pow2 a \<le> \<bar>x\<bar> then a else a - 1))"

definition round_half_even :: "rat \<Rightarrow> int" where
  "round_half_even y =
     (let f = \<lfloor>y\<rfloor>; r = y - of_int f
      in if r < 1 / 2 then f
         else if 1 / 2 < r then f + 1
         else if even f then f else f + 1)"

definition round_double :: "rat \<Rightarrow> rat option" where
  "round_double x =
     (if x = 0 then Some 0
      else let e = max (log2_floor x - 52) (- 1074);
               m = round_half_even (x / pow2 e)
           in if 1024 < e + bitlen \<bar>m\<bar> then None
              else Some (of_int m * pow2 e))"

text \<open>The difference of two doubles, and the quotient of a double or infinity by a
  double that is not zero.\<close>

definition fsub :: "rat \<Rightarrow> rat \<Rightarrow> rat option" where
  "fsub a b = round_double (a - b)"

definition fdiv :: "rat option \<Rightarrow> rat \<Rightarrow> rat option" where
  "fdiv a b = (case a of None \<Rightarrow> None | Some x \<Rightarrow> round_double (x / b))"

subsection \<open>The control of a column\<close>

text \<open>
  The control rendered for a column of the table in progress. \<^verbatim>\<open>df[column]\<close> raises
  \<^verbatim>\<open>KeyError\<close> for a name that is no column. The minimum and maximum skip missing
  values; a column without any value has neither. The ends of the slider are the minimum
  and the maximum as doubles (\<^verbatim>\<open>float(...)\<close>), and its step is computed on doubles.
\<close>

definition control :: "table \<Rightarrow> string \<Rightarrow> error + widget" where
  "control df column =
     (if column \<notin> set (names df) then Inl (KeyError column)
      else case column_kind df column of
        Categorical \<Rightarrow>
          Inr (Multiselect (''Values for '' @ column)
                 (unique (series df column)) (unique (series df column)))
      | Numeric \<Rightarrow>
          (case numbers (series df column) of
             [] \<Rightarrow> Inl ValueError
           | x # xs \<Rightarrow>
               (case round_double (fold min xs x) of
                  None \<Rightarrow> Inl OverflowError
                | Some min_v \<Rightarrow>
                    (case round_double (fold max xs x) of
                       None \<Rightarrow> Inl OverflowError
                     | Some max_v \<Rightarrow>
                         (let step = fdiv (fsub max_v min_v) 100
                          in Inr (Slider (''Values for '' @ column) min_v max_v
                                    (min_v, max_v) step)))))
      | DateTime \<Rightarrow>
          (case stamps (series df column) of
             [] \<Rightarrow> Inl ValueError
           | w # ws \<Rightarrow>
               Inr (DateInput (''Values for '' @ column) (fold min ws w, fold max ws w)))
      | Text \<Rightarrow> Inr (TextInput (''Substring or regex in '' @ column)))"

text \<open>The row tests: \<^verbatim>\<open>isin\<close>, \<^verbatim>\<open>between\<close> (both ends included, false on a
  missing value) and \<^verbatim>\<open>str.contains\<close>.\<close>

definition isin :: "string \<Rightarrow> cell list \<Rightarrow> row \<Rightarrow> bool" where
  "isin c vals r = (cell_at r c \<in> set vals)"

definition between :: "string \<Rightarrow> rat \<Rightarrow> rat \<Rightarrow> row \<Rightarrow> bool" where
  "between c lo hi r = (case cell_at r c of Num x \<Rightarrow> lo \<le> x \<and> x \<le> hi | _ \<Rightarrow> False)"

definition between_dates :: "string \<Rightarrow> int \<Rightarrow> int \<Rightarrow> row \<Rightarrow> bool" where
  "between_dates c s e r = (case cell_at r c of Ts w z \<Rightarrow> s \<le> w \<and> w \<le> e | _ \<Rightarrow> False)"

definition str_contains :: "(string \<Rightarrow> bool) \<Rightarrow> string \<Rightarrow> row \<Rightarrow> bool" where
  "str_contains m c r = (case cell_at r c of Str s \<Rightarrow> m s | _ \<Rightarrow> False)"

fun is_Str :: "cell \<Rightarrow> bool" where
  "is_Str (Str s) = True"
| "is_Str v = False"

text \<open>\<^verbatim>\<open>df[mask]\<close>: the rows that pass, in their order, under the same columns.\<close>

definition select_rows :: "table \<Rightarrow> (row \<Rightarrow> bool) \<Rightarrow> table" where
  "select_rows df keep = df\<lparr>rows := filter keep (rows df)\<rparr>"

text \<open>
  The row test one selected column contributes, from the user's answer to its control;
  \<open>None\<close> when the branch applies no filter (a date input that is not a pair, an empty
  text). The date input answers with days, which \<^verbatim>\<open>pd.to_datetime\<close> turns into the
  time stamps of their midnights. \<^verbatim>\<open>str.contains\<close> compiles the pattern first; its
  mask is missing on every value that is not a text, and \<^verbatim>\<open>df[mask]\<close> raises
  \<^verbatim>\<open>ValueError\<close> on such a mask.
\<close>

definition column_filter :: "lib \<Rightarrow> ui \<Rightarrow> table \<Rightarrow> string \<Rightarrow> error + (row \<Rightarrow> bool) option" where
  "column_filter L U df column =
     (case control df column of
        Inl e \<Rightarrow> Inl e
      | Inr (Multiselect l opts dflt) \<Rightarrow>
          Inr (Some (isin column (multiselect U (Multiselect l opts dflt))))
      | Inr (Slider l lo hi v st) \<Rightarrow>
          (case slider U (Slider l lo hi v st) of
             (a, b) \<Rightarrow> Inr (Some (between column a b)))
      | Inr (DateInput l v) \<Rightarrow>
          (case date_input U (DateInput l v) of
             [d1, d2] \<Rightarrow> Inr (Some (between_dates column (d1 * 86400) (d2 * 86400)))
           | _ \<Rightarrow> Inr None)
      | Inr (TextInput l) \<Rightarrow>
          (let user_text_input = text_input U (TextInput l)
           in if user_text_input = [] then Inr None
              else case re_search L user_text_input of
                     None \<Rightarrow> Inl (PatternError user_text_input)
                   | Some m \<Rightarrow>
                       if list_all is_Str (series df column)
                       then Inr (Some (str_contains m column))
                       else Inl ValueError))"

definition filter_column :: "lib \<Rightarrow> ui \<Rightarrow> table \<Rightarrow> string \<Rightarrow> error + table" where
  "filter_column L U df column =
     (case column_filter L U df column of
        Inl e \<Rightarrow> Inl e
      | Inr None \<Rightarrow> Inr df
      | Inr (Some keep) \<Rightarrow> Inr (select_rows df keep))"

subsection \<open>The loop and the function\<close>

text \<open>\<^verbatim>\<open>for column in to_filter_columns\<close>: each round works on the table the round
  before left; an exception ends the loop.\<close>

fun filter_columns :: "lib \<Rightarrow> ui \<Rightarrow> table \<Rightarrow> string list \<Rightarrow> error + table" where
  "filter_columns L U df [] = Inr df"
| "filter_columns L U df (column # rest) =
     (case filter_column L U df column of
        Inl e \<Rightarrow> Inl e
      | Inr df' \<Rightarrow> filter_columns L U df' rest)"

definition filter_dataframe :: "lib \<Rightarrow> ui \<Rightarrow> table \<Rightarrow> error + table" where
  "filter_dataframe L U df =
     (if \<not> checkbox U then Inr df
      else let df1 = normalize L df
           in filter_columns L U df1 (choose_columns U (names df1)))"

subsection \<open>Frames as objects\<close>

text \<open>
  Python's \<^verbatim>\<open>df\<close> is a reference to a frame object. To speak about mutation the
  store of frame objects is made explicit: a list of tables, a reference is an index.
  \<^verbatim>\<open>df.copy()\<close> and \<^verbatim>\<open>df[mask]\<close> make a new object; \<^verbatim>\<open>df[col] = ...\<close> writes
  into the object \<^verbatim>\<open>df\<close> refers to; \<^verbatim>\<open>df = ...\<close> rebinds the local variable.
\<close>

type_synonym heap = "table list"

definition normalize_in_place :: "lib \<Rightarrow> nat \<Rightarrow> heap \<Rightarrow> heap" where
  "normalize_in_place L df h =
     foldl (\<lambda>h col. h[df := normalize_column L (h ! df) col]) h (names (h ! df))"

fun filter_columns_heap :: "lib \<Rightarrow> ui \<Rightarrow> nat \<Rightarrow> heap \<Rightarrow> string list \<Rightarrow> (error + nat) \<times> heap" where
  "filter_columns_heap L U df h [] = (Inr df, h)"
| "filter_columns_heap L U df h (column # rest) =
     (case column_filter L U (h ! df) column of
        Inl e \<Rightarrow> (Inl e, h)
      | Inr None \<Rightarrow> filter_columns_heap L U df h rest
      | Inr (Some keep) \<Rightarrow>
          filter_columns_heap L U (length h) (h @ [select_rows (h ! df) keep]) rest)"

definition filter_dataframe_heap :: "lib \<Rightarrow> ui \<Rightarrow> nat \<Rightarrow> heap \<Rightarrow> (error + nat) \<times> heap" where
  "filter_dataframe_heap L U df h =
     (if \<not> checkbox U then (Inr df, h)
      else let h1 = h @ [h ! df]; df1 = length h;
               h2 = normalize_in_place L df1 h1
           in filter_columns_heap L U df1 h2 (choose_columns U (names (h2 ! df1))))"

section \<open>\<^verbatim>\<open>get_data_from_excel\<close>\<close>

text \<open>
  An uploaded file is a workbook, a list of named sheets, or something
  \<^verbatim>\<open>pd.read_excel\<close> cannot read. \<^verbatim>\<open>read_excel\<close> raises when the sheet is absent.
\<close>

datatype upload = Workbook "(string \<times> table) list" | NotAWorkbook

definition read_excel :: "upload \<Rightarrow> string \<Rightarrow> error + table" where
  "read_excel io sheet_name =
     (case io of
        NotAWorkbook \<Rightarrow> Inl LoadError
      | Workbook sheets \<Rightarrow>
          (case map_of sheets sheet_name of None \<Rightarrow> Inl LoadError | Some df \<Rightarrow> Inr df))"

text \<open>
  \<^verbatim>\<open>@st.cache_data\<close> keeps, for one decorated function, the value returned for each
  tuple of call arguments; a call whose arguments have an entry returns the stored value
  without running the body, and an exception stores nothing.
\<close>

definition cache_data ::
  "('k \<Rightarrow> error + table) \<Rightarrow> 'k \<Rightarrow> ('k \<rightharpoonup> table) \<Rightarrow> (error + table) \<times> ('k \<rightharpoonup> table)" where
  "cache_data f args cache =
     (case cache args of
        Some v \<Rightarrow> (Inr v, cache)
      | None \<Rightarrow>
          (case f args of
             Inl e \<Rightarrow> (Inl e, cache)
           | Inr v \<Rightarrow> (Inr v, cache(args \<mapsto> v))))"

text \<open>
  \<^verbatim>\<open>get_data_from_excel()\<close> takes no argument, so its argument tuple is \<open>()\<close>; the
  body reads the module variable \<^verbatim>\<open>uploaded_file\<close>.
\<close>

definition get_data_from_excel ::
  "upload \<Rightarrow> (unit \<rightharpoonup> table) \<Rightarrow> (error + table) \<times> (unit \<rightharpoonup> table)" where
  "get_data_from_excel uploaded_file cache =
     cache_data (\<lambda>args. read_excel uploaded_file ''Monthly'') () cache"

section \<open>The Top 25 view\<close>

text \<open>
  \<^verbatim>\<open>DataFrame.nlargest(n, column)\<close> with its default \<^verbatim>\<open>keep='first'\<close>: the rows
  with a value in the column, ordered by falling value with rows of equal value in their
  order of appearance, followed by the rows without a value; the first \<open>n\<close> of them.
  \<^verbatim>\<open>nsmallest\<close> is the same with rising values. Both raise \<^verbatim>\<open>KeyError\<close> for a
  missing column and \<^verbatim>\<open>TypeError\<close> for an object or categorical column.
\<close>

fun has_value :: "cell \<Rightarrow> bool" where
  "has_value (Num x) = True"
| "has_value (Ts w z) = True"
| "has_value v = False"

fun value_of :: "cell \<Rightarrow> rat" where
  "value_of (Num x) = x"
| "value_of (Ts w z) = of_int w"
| "value_of v = 0"

definition ranked :: "(rat \<Rightarrow> rat) \<Rightarrow> string \<Rightarrow> row list \<Rightarrow> row list" where
  "ranked key column rs =
     sort_key (\<lambda>r. key (value_of (cell_at r column)))
       (filter (\<lambda>r. has_value (cell_at r column)) rs)
     @ filter (\<lambda>r. \<not> has_value (cell_at r column)) rs"

definition select_n :: "(rat \<Rightarrow> rat) \<Rightarrow> nat \<Rightarrow> string \<Rightarrow> table \<Rightarrow> error + table" where
  "select_n key n column df =
     (if column \<notin> set (names df) then Inl (KeyError column)
      else if dtype_of df column = ObjectT \<or> dtype_of df column = CategoryT then Inl TypeError
      else Inr (df\<lparr>rows := take n (ranked key column (rows df))\<rparr>))"

definition nlargest :: "nat \<Rightarrow> string \<Rightarrow> table \<Rightarrow> error + table" where
  "nlargest = select_n uminus"

definition nsmallest :: "nat \<Rightarrow> string \<Rightarrow> table \<Rightarrow> error + table" where
  "nsmallest = select_n id"

text \<open>Lines 249 and 250 of \<^verbatim>\<open>show_tab4\<close>: the two selections the view draws.\<close>

definition show_tab4 :: "table \<Rightarrow> error + table \<times> table" where
  "show_tab4 filtered_df =
     (case nlargest 25 ''MIKTAR'' filtered_df of
        Inl e \<Rightarrow> Inl e
      | Inr dfx \<Rightarrow>
          (case nsmallest 25 ''MIKTAR'' filtered_df of
             Inl e \<Rightarrow> Inl e
           | Inr dfy \<Rightarrow> Inr (dfx, dfy)))"

text \<open>The quantity of a row, and whether the row has one.\<close>

definition has_quantity :: "row \<Rightarrow> bool" where
  "has_quantity r = has_value (cell_at r ''MIKTAR'')"

definition quantity :: "row \<Rightarrow> rat" where
  "quantity r = value_of (cell_at r ''MIKTAR'')"

section \<open>The main page\<close>

text \<open>
  One run of the script from line 453 on: nothing is drawn without an upload; otherwise
  the table is loaded, filtered and handed to the chosen view. An exception ends the run.
  Of the views only the tables they draw from are kept.
\<close>

datatype page = Waiting | Report string table | Top25 table table

definition main_page ::
  "lib \<Rightarrow> ui \<Rightarrow> upload option \<Rightarrow> (unit \<rightharpoonup> table) \<Rightarrow> (error + page) \<times> (unit \<rightharpoonup> table)" where
  "main_page L U uploaded_file cache =
     (case uploaded_file of
        None \<Rightarrow> (Inr Waiting, cache)
      | Some file \<Rightarrow>
          (case get_data_from_excel file cache of
             (Inl e, cache') \<Rightarrow> (Inl e, cache')
           | (Inr excel_df, cache') \<Rightarrow>
               (case filter_dataframe L U excel_df of
                  Inl e \<Rightarrow> (Inl e, cache')
                | Inr filtered_df \<Rightarrow>
                    if radio U = ''Top 25'' then
                      (case show_tab4 filtered_df of
                         Inl e \<Rightarrow> (Inl e, cache')
                       | Inr (dfx, dfy) \<Rightarrow> (Inr (Top25 dfx dfy), cache'))
                    else (Inr (Report (radio U) filtered_df), cache'))))"

section \<open>Sample inputs\<close>

text \<open>
  A library that parses one date text and searches patterns of lower-case letters
  literally. Among the patterns it rejects is \<^verbatim>\<open>(\<close>, which Python's \<^verbatim>\<open>re\<close> rejects
  as an unterminated group.
\<close>

definition sample_lib :: lib where
  "sample_lib =
     \<lparr>to_datetime = (\<lambda>v. case v of
          NA \<Rightarrow> Some NA
        | Ts w z \<Rightarrow> Some (Ts w z)
        | Str s \<Rightarrow> if s = ''2024-03-01T00:00:00+03:00'' then Some (Ts 1709251200 (Some 10800))
                   else None
        | Num x \<Rightarrow> None),
      re_search = (\<lambda>p. if list_all (\<lambda>c. c \<in> set ''abcdefghijklmnopqrstuvwxyz'') p
                        then Some (sublist p) else None)\<rparr>"

text \<open>The user who leaves every control as it is rendered.\<close>

definition untouched :: ui where
  "untouched =
     \<lparr>checkbox = False,
      choose_columns = (\<lambda>cols. []),
      multiselect = (\<lambda>w. case w of Multiselect l opts dflt \<Rightarrow> dflt | _ \<Rightarrow> []),
      slider = (\<lambda>w. case w of Slider l lo hi v st \<Rightarrow> v | _ \<Rightarrow> (0, 0)),
      date_input = (\<lambda>w. case w of DateInput l (a, b) \<Rightarrow> [a div 86400, b div 86400] | _ \<Rightarrow> []),
      text_input = (\<lambda>w. []),
      radio = ''Ana Tablo''\<rparr>"

definition filtering :: "string list \<Rightarrow> ui" where
  "filtering cols = untouched\<lparr>checkbox := True, choose_columns := (\<lambda>all. cols)\<rparr>"

definition sales :: table where
  "sales =
     \<lparr>columns = [(''TURU'', ObjectT), (''MIKTAR'', NumericT), (''TARIH'', ObjectT)],
      rows =
        [[(''TURU'', Str ''kahve''), (''MIKTAR'', Num 5), (''TARIH'', Str ''2024-03-01T00:00:00+03:00'')],
         [(''TURU'', Str ''cay''), (''MIKTAR'', Num 10), (''TARIH'', Str ''2024-03-01T00:00:00+03:00'')],
         [(''TURU'', Str ''kahve''), (''MIKTAR'', Num 1), (''TARIH'', NA)]]\<rparr>"

text \<open>\<open>n\<close> products with the quantities \<open>0\<close> to \<open>n - 1\<close> and names of growing length.\<close>

definition products :: "nat \<Rightarrow> table" where
  "products n =
     \<lparr>columns = [(''URUN'', ObjectT), (''MIKTAR'', NumericT)],
      rows = map (\<lambda>i. [(''URUN'', Str (replicate (Suc i) CHR ''a'')), (''MIKTAR'', Num (of_nat i))])
               [0..<n]\<rparr>"

text \<open>A table whose quantity column holds a single distinct value.\<close>

definition flat :: table where
  "flat =
     \<lparr>columns = [(''MIKTAR'', NumericT)],
      rows = [[(''MIKTAR'', Num 5)], [(''MIKTAR'', Num 5)], [(''MIKTAR'', Num 5)]]\<rparr>"

text \<open>Twenty distinct quantities of 64 bits, closer to each other than doubles of their
  size are.\<close>

definition huge :: table where
  "huge =
     \<lparr>columns = [(''MIKTAR'', NumericT)],
      rows = map (\<lambda>i. [(''MIKTAR'', Num (4611686018427387904 + of_nat i))]) [0..<20]\<rparr>"

text \<open>A user who filters on quantity and then on product name, with fixed answers.\<close>

definition narrowing :: ui where
  "narrowing =
     (filtering [''MIKTAR'', ''URUN''])
       \<lparr>slider := (\<lambda>w. (5, 7)),
        multiselect := (\<lambda>w. [Str ''aaaaaa'', Str ''aaaaaaaa''])\<rparr>"

text \<open>A user who types a text into the search box of the product names.\<close>

definition typing :: "string \<Rightarrow> ui" where
  "typing pat = (filtering [''URUN''])\<lparr>text_input := (\<lambda>w. pat)\<rparr>"

text \<open>Two uploads with different ``Monthly'' sheets.\<close>

definition first_upload :: upload where
  "first_upload = Workbook [(''Monthly'', sales)]"

definition second_upload :: upload where
  "second_upload = Workbook [(''Notes'', sales), (''Monthly'', flat)]"

text \<open>A user who filters on the category and keeps the coffee.\<close>

definition coffee_only :: ui where
  "coffee_only = (filtering [''TURU''])\<lparr>multiselect := (\<lambda>w. [Str ''kahve''])\<rparr>"

text \<open>An upload of twenty products.\<close>

definition catalogue :: upload where
  "catalogue = Workbook [(''Monthly'', products 20)]"

section \<open>Auxiliary facts\<close>

lemma set_unique: "set (unique xs) = set xs"
proof (induction xs rule: unique.induct)
  case 1
  show ?case by simp
next
  case (2 x xs)
  then show ?case by auto
qed

lemma distinct_unique: "distinct (unique xs)"
proof (induction xs rule: unique.induct)
  case 1
  show ?case by simp
next
  case (2 x xs)
  then show ?case by (simp add: set_unique)
qed


lemma select_rows_twice:
  "select_rows (select_rows df p) q = select_rows df (\<lambda>r. p r \<and> q r)"
  by (simp add: select_rows_def)

lemma select_rows_all: "list_all keep (rows df) \<Longrightarrow> select_rows df keep = df"
  by (simp add: select_rows_def list_all_iff)

lemma rows_select_rows: "rows (select_rows df keep) = filter keep (rows df)"
  by (simp add: select_rows_def)

lemma columns_select_rows: "columns (select_rows df keep) = columns df"
  by (simp add: select_rows_def)

lemma names_select_rows: "names (select_rows df keep) = names df"
  by (simp add: names_def columns_select_rows)

lemma control_products_20:
  "control (products 20) ''MIKTAR'' =
     Inr (Slider ''Values for MIKTAR'' 0 19 (0, 19)
            (Some (3422735716801577 / 18014398509481984)))"
  by code_simp

lemma control_huge:
  "control huge ''MIKTAR'' =
     Inr (Slider ''Values for MIKTAR'' 4611686018427387904 4611686018427387904
            (4611686018427387904, 4611686018427387904) (Some 0))"
  by code_simp

lemma control_narrowed_products:
  "control (select_rows (products 20) (between ''MIKTAR'' 5 7)) ''URUN'' =
     Inr (Multiselect ''Values for URUN'' [Str ''aaaaaa'', Str ''aaaaaaa'', Str ''aaaaaaaa'']
            [Str ''aaaaaa'', Str ''aaaaaaa'', Str ''aaaaaaaa''])"
  by code_simp

lemma isin_unique_series:
  "list_all (isin column (unique (series df column))) (rows df)"
  by (simp add: list_all_iff isin_def set_unique series_def)

lemma control_Multiselect_iff:
  assumes "control df column = Inr (Multiselect l opts dflt)"
  shows "column \<in> set (names df)" and "column_kind df column = Categorical"
    and "l = ''Values for '' @ column"
    and "opts = unique (series df column)" and "dflt = unique (series df column)"
  using assms
  by (auto simp: control_def Let_def split: if_splits kind.splits list.splits option.splits)

lemma names_set_column: "names (set_column df c d f) = names df"
  by (simp add: names_def set_column_def case_prod_unfold comp_def if_distrib cong: if_cong)

lemma names_normalize_column: "names (normalize_column L df col) = names df"
  by (simp add: normalize_column_def Let_def names_set_column)

lemma names_foldl_normalize_column:
  "names (foldl (normalize_column L) df cols) = names df"
  by (induction cols arbitrary: df) (simp_all add: names_normalize_column)

lemma names_normalize: "names (normalize L df) = names df"
  by (simp add: normalize_def names_foldl_normalize_column)

lemma filter_column_narrows:
  assumes "filter_column L U df column = Inr df'"
  shows "columns df' = columns df \<and> subseq (rows df') (rows df)"
proof (cases "column_filter L U df column")
  case (Inl e)
  with assms show ?thesis by (simp add: filter_column_def)
next
  case (Inr t)
  show ?thesis
  proof (cases t)
    case None
    with Inr assms show ?thesis by (simp add: filter_column_def)
  next
    case (Some keep)
    with Inr assms have "df' = select_rows df keep" by (simp add: filter_column_def)
    then show ?thesis by (simp add: select_rows_def)
  qed
qed

lemma filter_columns_narrows:
  "filter_columns L U df cols = Inr out \<Longrightarrow>
     columns out = columns df \<and> subseq (rows out) (rows df)"
proof (induction cols arbitrary: df)
  case Nil
  then show ?case by simp
next
  case (Cons c cols)
  from Cons.prems obtain df' where
    s: "filter_column L U df c = Inr df'" and r: "filter_columns L U df' cols = Inr out"
    by (auto split: sum.splits)
  from Cons.IH [OF r] filter_column_narrows [OF s] show ?case
    by (auto intro: subseq_order.trans)
qed

lemma control_sales_TURU:
  "control sales ''TURU'' =
     Inr (Multiselect ''Values for TURU'' [Str ''kahve'', Str ''cay''] [Str ''kahve'', Str ''cay''])"
  by code_simp

lemma flat_facts:
  "''MIKTAR'' \<in> set (names flat)" "nunique (series flat ''MIKTAR'') = 1"
  "dtype_of flat ''MIKTAR'' = NumericT" "unique (series flat ''MIKTAR'') = [Num 5]"
  by code_simp+

lemma filtered_sales:
  "filter_dataframe sample_lib (filtering [''TURU'']) sales =
     Inr \<lparr>columns = [(''TURU'', ObjectT), (''MIKTAR'', NumericT), (''TARIH'', DatetimeT)],
          rows =
            [[(''TURU'', Str ''kahve''), (''MIKTAR'', Num 5), (''TARIH'', Ts 1709251200 None)],
             [(''TURU'', Str ''cay''), (''MIKTAR'', Num 10), (''TARIH'', Ts 1709251200 None)],
             [(''TURU'', Str ''kahve''), (''MIKTAR'', Num 1), (''TARIH'', NA)]]\<rparr>"
  by code_simp

lemma filter_columns_append:
  "filter_columns L U df (xs @ ys) =
     (case filter_columns L U df xs of Inl e \<Rightarrow> Inl e | Inr d \<Rightarrow> filter_columns L U d ys)"
  by (induction xs arbitrary: df) (simp_all split: sum.splits)

lemma control_catalogue_URUN:
  "control (normalize sample_lib (products 20)) ''URUN'' = Inr (TextInput ''Substring or regex in URUN'')"
  by code_simp

lemma names_products: "names (products n) = [''URUN'', ''MIKTAR'']"
  by (simp add: names_def products_def)












lemma foldl_update_in_place:
  "b < length h \<Longrightarrow>
     foldl (\<lambda>h col. h[b := f (h ! b) col]) h cols = h[b := foldl f (h ! b) cols]"
proof (induction cols arbitrary: h)
  case Nil
  then show ?case by simp
next
  case (Cons c cols)
  have "b < length (h[b := f (h ! b) c])" using Cons.prems by simp
  from Cons.IH [OF this] Cons.prems show ?case by simp
qed

lemma normalize_in_place_eq:
  "b < length h \<Longrightarrow> normalize_in_place L b h = h[b := normalize L (h ! b)]"
  by (simp add: normalize_in_place_def normalize_def foldl_update_in_place)

lemma filter_columns_heap_frame:
  assumes "df < length h" and "filter_columns_heap L U df h cols = (res, h')"
  shows "take (length h) h' = h
       \<and> (case res of
            Inl e \<Rightarrow> filter_columns L U (h ! df) cols = Inl e
          | Inr r \<Rightarrow> df \<le> r \<and> r < length h' \<and> filter_columns L U (h ! df) cols = Inr (h' ! r))"
  using assms
proof (induction cols arbitrary: df h)
  case Nil
  then show ?case by auto
next
  case (Cons c cols)
  show ?case
  proof (cases "column_filter L U (h ! df) c")
    case (Inl e)
    with Cons.prems show ?thesis by (auto simp: filter_column_def)
  next
    case (Inr t)
    show ?thesis
    proof (cases t)
      case None
      with Inr Cons.prems have "filter_columns_heap L U df h cols = (res, h')" by simp
      from Cons.IH [OF Cons.prems(1) this] Inr None show ?thesis
        by (auto simp: filter_column_def split: sum.splits)
    next
      case (Some keep)
      let ?h1 = "h @ [select_rows (h ! df) keep]"
      have run: "filter_columns_heap L U (length h) ?h1 cols = (res, h')"
        using Inr Some Cons.prems by simp
      have "length h < length ?h1" by simp
      note ih = Cons.IH [OF this run]
      from ih have t: "take (Suc (length h)) h' = ?h1" by simp
      have "take (length h) h' = take (length h) (take (Suc (length h)) h')"
        by (simp add: min_def)
      also have "\<dots> = h" by (simp only: t) simp
      finally have frame: "take (length h) h' = h" .
      have step: "filter_columns L U (h ! df) (c # cols)
                    = filter_columns L U (select_rows (h ! df) keep) cols"
        using Inr Some by (simp add: filter_column_def)
      show ?thesis
      proof (cases res)
        case (Inl e)
        with ih frame step show ?thesis by simp
      next
        case (Inr r)
        with ih frame step Cons.prems(1) show ?thesis by simp
      qed
    qed
  qed
qed

lemma heap_run_on_sales:
  "fst (filter_dataframe_heap sample_lib coffee_only 0 [sales]) = Inr 2"
  "length (snd (filter_dataframe_heap sample_lib coffee_only 0 [sales])) = 3"
  "snd (filter_dataframe_heap sample_lib coffee_only 0 [sales]) ! 1 \<noteq> sales"
  "length (rows (snd (filter_dataframe_heap sample_lib coffee_only 0 [sales]) ! 2)) = 2"
  by code_simp+

lemma length_ranked: "length (ranked key c rs) = length rs"
  by (simp add: ranked_def sum_length_filter_compl)

lemma mset_ranked: "mset (ranked key c rs) = mset rs"
  by (simp add: ranked_def)

lemma set_ranked: "set (ranked key c rs) = set rs"
  using mset_ranked [of key c rs] by (metis set_mset_mset)

lemma sorted_wrt_ranked:
  "sorted_wrt (\<lambda>r s. has_value (cell_at s c) \<longrightarrow>
       has_value (cell_at r c) \<and> key (value_of (cell_at r c)) \<le> key (value_of (cell_at s c)))
     (ranked key c rs)"
proof -
  let ?f = "\<lambda>r. key (value_of (cell_at r c))"
  let ?P = "filter (\<lambda>r. has_value (cell_at r c)) rs"
  let ?A = "filter (\<lambda>r. \<not> has_value (cell_at r c)) rs"
  let ?R = "\<lambda>r s. has_value (cell_at s c) \<longrightarrow> has_value (cell_at r c) \<and> ?f r \<le> ?f s"
  have s: "sorted_wrt (\<lambda>r s. ?f r \<le> ?f s) (sort_key ?f ?P)"
    using sorted_sort_key [of ?f ?P] by (simp only: sorted_map)
  have a: "sorted_wrt ?R (sort_key ?f ?P)"
  proof (rule sorted_wrt_mono_rel [OF _ s])
    fix x y
    assume "x \<in> set (sort_key ?f ?P)" and "?f x \<le> ?f y"
    then show "?R x y" by simp
  qed
  have t: "sorted_wrt (\<lambda>r s. True) ?A" by (simp add: sorted_wrt_iff_nth_less)
  have b: "sorted_wrt ?R ?A"
  proof (rule sorted_wrt_mono_rel [OF _ t])
    fix x y
    assume "y \<in> set ?A"
    then show "?R x y" by simp
  qed
  have c: "\<forall>x\<in>set (sort_key ?f ?P). \<forall>y\<in>set ?A. ?R x y" by simp
  show ?thesis
    unfolding ranked_def sorted_wrt_append using a b c by blast
qed

lemma sorted_wrt_take_drop:
  assumes "sorted_wrt R xs"
  shows "sorted_wrt R (take n xs) \<and> (\<forall>x\<in>set (take n xs). \<forall>y\<in>set (drop n xs). R x y)"
proof -
  have "sorted_wrt R (take n xs @ drop n xs)" using assms by simp
  then show ?thesis unfolding sorted_wrt_append by blast
qed

lemma ties_ranked:
  assumes "inj key"
  shows "filter (\<lambda>r. has_value (cell_at r c) \<and> value_of (cell_at r c) = k) (ranked key c rs)
       = filter (\<lambda>r. has_value (cell_at r c) \<and> value_of (cell_at r c) = k) rs"
proof -
  let ?f = "\<lambda>r. key (value_of (cell_at r c))"
  let ?h = "\<lambda>r. has_value (cell_at r c)"
  let ?P = "filter ?h rs"
  have e: "(value_of (cell_at r c) = k) = (?f r = key k)" for r
    using assms by (auto dest: injD)
  have "filter (\<lambda>r. ?h r \<and> value_of (cell_at r c) = k) (sort_key ?f ?P)
          = filter (\<lambda>r. ?f r = key k) (sort_key ?f ?P)"
    by (rule filter_cong) (auto simp: e)
  also have "\<dots> = filter (\<lambda>r. ?f r = key k) ?P" by (rule sort_key_stable)
  also have "\<dots> = filter (\<lambda>r. ?h r \<and> value_of (cell_at r c) = k) rs"
    by (simp add: e conj_commute)
  finally have s: "filter (\<lambda>r. ?h r \<and> value_of (cell_at r c) = k) (sort_key ?f ?P)
          = filter (\<lambda>r. ?h r \<and> value_of (cell_at r c) = k) rs" .
  have "filter (\<lambda>r. ?h r \<and> value_of (cell_at r c) = k) (filter (\<lambda>r. \<not> ?h r) rs) = []"
    by (simp add: filter_empty_conv)
  with s show ?thesis by (simp add: ranked_def)
qed

lemma few_smaller_before:
  fixes f :: "'a \<Rightarrow> rat"
  assumes "sorted (map f ys)" and "x \<in> set (take n ys)"
  shows "card (g ` {z \<in> set ys. f z < f x}) < n"
proof -
  from assms(2) obtain i where "i < length (take n ys)" and "take n ys ! i = x"
    by (auto simp: in_set_conv_nth)
  then have i: "i < n" "i < length ys" "ys ! i = x" by simp_all
  have sub: "{z \<in> set ys. f z < f x} \<subseteq> set (take i ys)"
  proof
    fix z
    assume "z \<in> {z \<in> set ys. f z < f x}"
    then obtain j where j: "j < length ys" "ys ! j = z" "f z < f x"
      by (auto simp: in_set_conv_nth)
    have "j < i"
    proof (rule ccontr)
      assume "\<not> j < i"
      then have "i \<le> j" by simp
      then have "map f ys ! i \<le> map f ys ! j"
        using assms(1) j(1) by (simp add: sorted_iff_nth_mono)
      then show False using i j by simp
    qed
    then have "j < length (take i ys)" and "take i ys ! j = z" using j i by simp_all
    then show "z \<in> set (take i ys)" by (metis nth_mem)
  qed
  have "card (g ` {z \<in> set ys. f z < f x}) \<le> card (g ` set (take i ys))"
    by (rule card_mono) (use sub in auto)
  also have "\<dots> \<le> card (set (take i ys))" by (rule card_image_le) simp
  also have "\<dots> \<le> length (take i ys)" by (rule card_length)
  also have "\<dots> \<le> i" by simp
  finally show ?thesis using i(1) by simp
qed

lemma overlap_bounds_values:
  assumes "x \<in> set (take n (ranked uminus c rs))" and "x \<in> set (take n (ranked id c rs))"
  shows "card ((\<lambda>r. value_of (cell_at r c)) ` {r \<in> set rs. has_value (cell_at r c)}) < 2 * n"
proof -
  let ?q = "\<lambda>r. value_of (cell_at r c)"
  let ?P = "filter (\<lambda>r. has_value (cell_at r c)) rs"
  let ?A = "filter (\<lambda>r. \<not> has_value (cell_at r c)) rs"
  let ?Sd = "sort_key (\<lambda>r. - ?q r) ?P"
  let ?Sa = "sort_key (\<lambda>r. id (?q r)) ?P"
  have P: "{r \<in> set rs. has_value (cell_at r c)} = set ?P" by auto
  have d: "x \<in> set (take n ?Sd) \<or> x \<in> set (take (n - length ?P) ?A)"
    using assms(1) by (auto simp: ranked_def)
  have a: "x \<in> set (take n ?Sa) \<or> x \<in> set (take (n - length ?P) ?A)"
    using assms(2) by (auto simp: ranked_def)
  show ?thesis
  proof (cases "has_value (cell_at x c)")
    case False
    have "x \<notin> set (take n ?Sd)"
    proof
      assume "x \<in> set (take n ?Sd)"
      then have "x \<in> set ?Sd" by (rule in_set_takeD)
      with False show False by simp
    qed
    with d have "take (n - length ?P) ?A \<noteq> []" by auto
    then have "length ?P < n" by (cases "n - length ?P") simp_all
    moreover have "card (?q ` set ?P) \<le> card (set ?P)" by (rule card_image_le) simp
    moreover have "card (set ?P) \<le> length ?P" by (rule card_length)
    ultimately show ?thesis unfolding P by linarith
  next
    case True
    have "x \<notin> set (take (n - length ?P) ?A)"
    proof
      assume "x \<in> set (take (n - length ?P) ?A)"
      then have "x \<in> set ?A" by (rule in_set_takeD)
      with True show False by simp
    qed
    with d a have xd: "x \<in> set (take n ?Sd)" and xa: "x \<in> set (take n ?Sa)" by blast+
    let ?U = "?q ` {z \<in> set ?P. ?q x < ?q z}"
    let ?L = "?q ` {z \<in> set ?P. ?q z < ?q x}"
    have "card (?q ` {z \<in> set ?Sd. - ?q z < - ?q x}) < n"
      by (rule few_smaller_before [OF sorted_sort_key xd])
    then have u: "card ?U < n" by simp
    have "card (?q ` {z \<in> set ?Sa. id (?q z) < id (?q x)}) < n"
      by (rule few_smaller_before [OF sorted_sort_key xa])
    then have l: "card ?L < n" by simp
    have sub: "?q ` set ?P \<subseteq> ?U \<union> ({?q x} \<union> ?L)"
    proof
      fix v
      assume "v \<in> ?q ` set ?P"
      then obtain z where z: "z \<in> set ?P" "v = ?q z" by blast
      consider "?q z < ?q x" | "?q z = ?q x" | "?q x < ?q z" by linarith
      then show "v \<in> ?U \<union> ({?q x} \<union> ?L)"
      proof cases
        case 1
        with z have "v \<in> ?L" by blast
        then show ?thesis by blast
      next
        case 2
        with z show ?thesis by simp
      next
        case 3
        with z have "v \<in> ?U" by blast
        then show ?thesis by blast
      qed
    qed
    have "card (?q ` set ?P) \<le> card (?U \<union> ({?q x} \<union> ?L))"
      by (rule card_mono [OF _ sub]) simp
    also have "\<dots> \<le> card ?U + card ({?q x} \<union> ?L)" by (rule card_Un_le)
    also have "\<dots> \<le> card ?U + (card {?q x} + card ?L)"
      using card_Un_le [of "{?q x}" ?L] by linarith
    finally have "card (?q ` set ?P) \<le> card ?U + (1 + card ?L)" by simp
    with u l show ?thesis unfolding P by linarith
  qed
qed

lemma select_n_rows:
  assumes "select_n key n c df = Inr out"
  shows "rows out = take n (ranked key c (rows df))" and "columns out = columns df"
  using assms by (auto simp: select_n_def split: if_splits)

lemma show_tab4_rows:
  assumes "show_tab4 df = Inr (dfx, dfy)"
  shows "rows dfx = take 25 (ranked uminus ''MIKTAR'' (rows df))"
    and "rows dfy = take 25 (ranked id ''MIKTAR'' (rows df))"
    and "columns dfx = columns df" and "columns dfy = columns df"
proof -
  from assms have x: "select_n uminus 25 ''MIKTAR'' df = Inr dfx"
    and y: "select_n id 25 ''MIKTAR'' df = Inr dfy"
    by (auto simp: show_tab4_def nlargest_def nsmallest_def split: sum.splits)
  show "rows dfx = take 25 (ranked uminus ''MIKTAR'' (rows df))" by (rule select_n_rows(1) [OF x])
  show "rows dfy = take 25 (ranked id ''MIKTAR'' (rows df))" by (rule select_n_rows(1) [OF y])
  show "columns dfx = columns df" by (rule select_n_rows(2) [OF x])
  show "columns dfy = columns df" by (rule select_n_rows(2) [OF y])
qed

lemma largest_first:
  "\<exists>rest. mset (take n (ranked uminus ''MIKTAR'' rs) @ rest) = mset rs
     \<and> (\<forall>r\<in>set (take n (ranked uminus ''MIKTAR'' rs)). \<forall>s\<in>set rest.
           has_quantity s \<longrightarrow> has_quantity r \<and> quantity s \<le> quantity r)"
proof (intro exI conjI)
  show "mset (take n (ranked uminus ''MIKTAR'' rs) @ drop n (ranked uminus ''MIKTAR'' rs)) = mset rs"
    by (simp only: append_take_drop_id mset_ranked)
  show "\<forall>r\<in>set (take n (ranked uminus ''MIKTAR'' rs)). \<forall>s\<in>set (drop n (ranked uminus ''MIKTAR'' rs)).
           has_quantity s \<longrightarrow> has_quantity r \<and> quantity s \<le> quantity r"
    using sorted_wrt_take_drop [OF sorted_wrt_ranked [of "''MIKTAR''" uminus rs], of n]
    by (simp add: has_quantity_def quantity_def)
qed

lemma smallest_first:
  "\<exists>rest. mset (take n (ranked id ''MIKTAR'' rs) @ rest) = mset rs
     \<and> (\<forall>r\<in>set (take n (ranked id ''MIKTAR'' rs)). \<forall>s\<in>set rest.
           has_quantity s \<longrightarrow> has_quantity r \<and> quantity r \<le> quantity s)"
proof (intro exI conjI)
  show "mset (take n (ranked id ''MIKTAR'' rs) @ drop n (ranked id ''MIKTAR'' rs)) = mset rs"
    by (simp only: append_take_drop_id mset_ranked)
  show "\<forall>r\<in>set (take n (ranked id ''MIKTAR'' rs)). \<forall>s\<in>set (drop n (ranked id ''MIKTAR'' rs)).
           has_quantity s \<longrightarrow> has_quantity r \<and> quantity r \<le> quantity s"
    using sorted_wrt_take_drop [OF sorted_wrt_ranked [of "''MIKTAR''" id rs], of n]
    by (simp add: has_quantity_def quantity_def)
qed

lemma falling_order:
  "sorted_wrt (\<lambda>r s. has_quantity s \<longrightarrow> has_quantity r \<and> quantity s \<le> quantity r)
     (take n (ranked uminus ''MIKTAR'' rs))"
  using sorted_wrt_take_drop [OF sorted_wrt_ranked [of "''MIKTAR''" uminus rs], of n]
  by (simp add: has_quantity_def quantity_def)

lemma rising_order:
  "sorted_wrt (\<lambda>r s. has_quantity s \<longrightarrow> has_quantity r \<and> quantity r \<le> quantity s)
     (take n (ranked id ''MIKTAR'' rs))"
  using sorted_wrt_take_drop [OF sorted_wrt_ranked [of "''MIKTAR''" id rs], of n]
  by (simp add: has_quantity_def quantity_def)

lemma ties_first_seen:
  assumes "inj key"
  shows "prefix (filter (\<lambda>r. has_quantity r \<and> quantity r = k) (take n (ranked key ''MIKTAR'' rs)))
           (filter (\<lambda>r. has_quantity r \<and> quantity r = k) rs)"
proof -
  have "prefix (filter (\<lambda>r. has_quantity r \<and> quantity r = k) (take n (ranked key ''MIKTAR'' rs)))
          (filter (\<lambda>r. has_quantity r \<and> quantity r = k) (ranked key ''MIKTAR'' rs))"
    by (rule filter_mono_prefix [OF take_is_prefix])
  then show ?thesis
    unfolding has_quantity_def quantity_def ties_ranked [OF assms] .
qed

lemma disjoint_selections:
  assumes "2 * n \<le> card (quantity ` {r \<in> set rs. has_quantity r})"
  shows "set (take n (ranked uminus ''MIKTAR'' rs)) \<inter> set (take n (ranked id ''MIKTAR'' rs)) = {}"
proof (rule ccontr)
  assume "set (take n (ranked uminus ''MIKTAR'' rs)) \<inter> set (take n (ranked id ''MIKTAR'' rs)) \<noteq> {}"
  then obtain x where "x \<in> set (take n (ranked uminus ''MIKTAR'' rs))"
    and "x \<in> set (take n (ranked id ''MIKTAR'' rs))" by blast
  from overlap_bounds_values [OF this] assms show False
    by (simp add: has_quantity_def quantity_def)
qed

lemma top_2_example:
  "map_sum id (\<lambda>t. series t ''MIKTAR'') (nlargest 2 ''MIKTAR'' sales) = Inr [Num 10, Num 5]"
  by code_simp

lemma fifty_products:
  "50 \<le> card (quantity ` {r \<in> set (rows (products 50)). has_quantity r})"
  "length (rows (products 50)) = 50"
  by code_simp+

lemma columns_products: "columns (products n) = [(''URUN'', ObjectT), (''MIKTAR'', NumericT)]"
  by (simp add: products_def)

lemma show_tab4_products:
  "show_tab4 (products 50) =
     Inr ((products 50)\<lparr>rows := take 25 (ranked uminus ''MIKTAR'' (rows (products 50)))\<rparr>,
          (products 50)\<lparr>rows := take 25 (ranked id ''MIKTAR'' (rows (products 50)))\<rparr>)"
  by (simp add: show_tab4_def nlargest_def nsmallest_def select_n_def names_def dtype_of_def
      columns_products)

lemma selections_of_products:
  "map quantity (take 25 (ranked uminus ''MIKTAR'' (rows (products 50)))) =
     [49, 48, 47, 46, 45, 44, 43, 42, 41, 40, 39, 38, 37, 36, 35, 34, 33, 32, 31, 30, 29, 28, 27,
      26, 25]"
  "map quantity (take 25 (ranked id ''MIKTAR'' (rows (products 50)))) =
     [0, 1, 2, 3, 4, 5, 6, 7, 8, 9, 10, 11, 12, 13, 14, 15, 16, 17, 18, 19, 20, 21, 22, 23, 24]"
  by code_simp+

section \<open>Properties\<close>

text \<open>
  C1. With the ``Add filters'' checkbox off, \<^verbatim>\<open>filter_dataframe\<close> returns its input
  table itself: the same rows in the same order under the same columns, whatever the
  library and the other answers of the user are.
\<close>

theorem filter_off_identity:
  "\<not> checkbox U \<Longrightarrow> filter_dataframe L U df = Inr df"
  by (simp add: filter_dataframe_def)

theorem filter_off_identity_witness:
  "\<not> checkbox untouched \<and> filter_dataframe sample_lib untouched sales = Inr sales"
  using filter_off_identity [of untouched sample_lib sales] by (simp add: untouched_def)

text \<open>
  C2. Two column filters in a row are the conjunction of their row tests on the first
  table: when the first selected column contributes the test \<open>p\<close> and the second, on
  the table narrowed by \<open>p\<close>, contributes \<open>q\<close>, the loop returns the rows of the first
  table that pass both, in their order.
\<close>

theorem sequential_filters_conjunction:
  assumes "column_filter L U df c1 = Inr (Some p)"
    and "column_filter L U (select_rows df p) c2 = Inr (Some q)"
  shows "filter_columns L U df [c1, c2] = Inr (select_rows df (\<lambda>r. p r \<and> q r))
       \<and> rows (select_rows (select_rows df p) q) = filter (\<lambda>r. p r \<and> q r) (rows df)"
  using assms by (simp add: filter_column_def select_rows_twice rows_select_rows)

theorem sequential_filters_conjunction_witness:
  "column_filter sample_lib narrowing (products 20) ''MIKTAR'' = Inr (Some (between ''MIKTAR'' 5 7))
   \<and> column_filter sample_lib narrowing (select_rows (products 20) (between ''MIKTAR'' 5 7)) ''URUN''
       = Inr (Some (isin ''URUN'' [Str ''aaaaaa'', Str ''aaaaaaaa'']))
   \<and> filter_columns sample_lib narrowing (products 20) [''MIKTAR'', ''URUN'']
       = Inr (select_rows (products 20)
                (\<lambda>r. between ''MIKTAR'' 5 7 r \<and> isin ''URUN'' [Str ''aaaaaa'', Str ''aaaaaaaa''] r))"
proof -
  have h1: "column_filter sample_lib narrowing (products 20) ''MIKTAR''
              = Inr (Some (between ''MIKTAR'' 5 7))"
    by (simp add: column_filter_def control_products_20 narrowing_def)
  have h2: "column_filter sample_lib narrowing
              (select_rows (products 20) (between ''MIKTAR'' 5 7)) ''URUN''
              = Inr (Some (isin ''URUN'' [Str ''aaaaaa'', Str ''aaaaaaaa'']))"
    by (simp add: column_filter_def control_narrowed_products narrowing_def)
  from sequential_filters_conjunction [OF h1 h2] h1 h2 show ?thesis by simp
qed

text \<open>
  C6. When the control of a selected column is the multiselect of the categorical branch,
  its default is the list of the distinct values of the column, the same list as its
  options; filtering with that default keeps every row, so the row count is unchanged, and
  a user who leaves the default gets the table back.
\<close>

theorem categorical_default_is_everything:
  assumes "control df column = Inr (Multiselect l opts dflt)"
  shows "opts = dflt \<and> dflt = unique (series df column)
       \<and> set dflt = set (series df column) \<and> distinct dflt
       \<and> select_rows df (isin column dflt) = df
       \<and> length (rows (select_rows df (isin column dflt))) = length (rows df)
       \<and> (multiselect U (Multiselect l opts dflt) = dflt \<longrightarrow> filter_column L U df column = Inr df)"
proof -
  note c = control_Multiselect_iff [OF assms]
  have d: "dflt = unique (series df column)" by (rule c(5))
  have s: "select_rows df (isin column dflt) = df"
    unfolding d by (rule select_rows_all [OF isin_unique_series])
  have f: "filter_column L U df column = Inr df" if "multiselect U (Multiselect l opts dflt) = dflt"
    using that assms s by (simp add: filter_column_def column_filter_def)
  show ?thesis using c(4) d s f by (simp add: set_unique distinct_unique)
qed

theorem categorical_default_is_everything_witness:
  "control sales ''TURU'' =
     Inr (Multiselect ''Values for TURU'' [Str ''kahve'', Str ''cay''] [Str ''kahve'', Str ''cay''])
   \<and> set [Str ''kahve'', Str ''cay''] = set (series sales ''TURU'')
   \<and> length (rows (select_rows sales (isin ''TURU'' [Str ''kahve'', Str ''cay'']))) = 3
   \<and> multiselect untouched
        (Multiselect ''Values for TURU'' [Str ''kahve'', Str ''cay''] [Str ''kahve'', Str ''cay''])
       = [Str ''kahve'', Str ''cay'']
   \<and> filter_column sample_lib untouched sales ''TURU'' = Inr sales"
proof -
  have m: "multiselect untouched
        (Multiselect ''Values for TURU'' [Str ''kahve'', Str ''cay''] [Str ''kahve'', Str ''cay''])
       = [Str ''kahve'', Str ''cay'']"
    by (simp add: untouched_def)
  have n: "length (rows sales) = 3" by (simp add: sales_def)
  note t = categorical_default_is_everything [OF control_sales_TURU, of untouched sample_lib]
  from t have a: "set [Str ''kahve'', Str ''cay''] = set (series sales ''TURU'')"
    by blast
  from t have b: "length (rows (select_rows sales (isin ''TURU'' [Str ''kahve'', Str ''cay''])))
                    = length (rows sales)"
    by blast
  from t m have c: "filter_column sample_lib untouched sales ''TURU'' = Inr sales"
    by blast
  show ?thesis
    by (intro conjI) (fact control_sales_TURU, fact a, simp only: b n, fact m, fact c)
qed

text \<open>
  C9. The categorical test comes first: a column of the table with fewer than 20
  distinct values is categorical whatever its dtype, numeric and date-time included; its
  control is the multiselect and its row test is set membership.
\<close>

theorem categorical_tested_first:
  assumes "column \<in> set (names df)" and "nunique (series df column) < 20"
  shows "column_kind df column = Categorical
       \<and> control df column =
           Inr (Multiselect (''Values for '' @ column)
                  (unique (series df column)) (unique (series df column)))
       \<and> column_filter L U df column =
           Inr (Some (isin column
                  (multiselect U (Multiselect (''Values for '' @ column)
                     (unique (series df column)) (unique (series df column))))))"
proof -
  have k: "column_kind df column = Categorical"
    using assms(2) by (simp add: column_kind_def)
  have c: "control df column =
           Inr (Multiselect (''Values for '' @ column)
                  (unique (series df column)) (unique (series df column)))"
    using assms(1) k by (simp add: control_def)
  show ?thesis using k c by (simp add: column_filter_def)
qed

theorem categorical_tested_first_witness:
  "''MIKTAR'' \<in> set (names flat) \<and> nunique (series flat ''MIKTAR'') < 20
   \<and> dtype_of flat ''MIKTAR'' = NumericT
   \<and> column_kind flat ''MIKTAR'' = Categorical
   \<and> control flat ''MIKTAR'' = Inr (Multiselect ''Values for MIKTAR'' [Num 5] [Num 5])
   \<and> column_filter sample_lib untouched flat ''MIKTAR'' = Inr (Some (isin ''MIKTAR'' [Num 5]))"
proof -
  have a: "''MIKTAR'' \<in> set (names flat)" by (rule flat_facts(1))
  have b: "nunique (series flat ''MIKTAR'') < 20" by (simp add: flat_facts(2))
  from categorical_tested_first [OF a b, of sample_lib untouched] a b show ?thesis
    by (simp add: flat_facts untouched_def)
qed

text \<open>
  C10. \<^verbatim>\<open>filter_dataframe\<close> only narrows. When it returns a table, the column names
  are those of the input, and the rows are a subsequence of the rows of the normalised
  input: some of them, in their order. With the checkbox off no pass has run and the table
  compared with is the input itself.
\<close>

theorem filter_only_narrows:
  assumes "filter_dataframe L U df = Inr out"
  shows "names out = names df
       \<and> columns out = columns (if checkbox U then normalize L df else df)
       \<and> subseq (rows out) (rows (if checkbox U then normalize L df else df))"
proof (cases "checkbox U")
  case False
  with assms show ?thesis by (simp add: filter_dataframe_def)
next
  case True
  with assms have "filter_columns L U (normalize L df)
                     (choose_columns U (names (normalize L df))) = Inr out"
    by (simp add: filter_dataframe_def Let_def)
  from filter_columns_narrows [OF this] True show ?thesis
    using names_normalize [of L df] by (simp add: names_def)
qed

theorem filter_only_narrows_witness:
  "filter_dataframe sample_lib (filtering [''TURU'']) sales =
     Inr \<lparr>columns = [(''TURU'', ObjectT), (''MIKTAR'', NumericT), (''TARIH'', DatetimeT)],
          rows =
            [[(''TURU'', Str ''kahve''), (''MIKTAR'', Num 5), (''TARIH'', Ts 1709251200 None)],
             [(''TURU'', Str ''cay''), (''MIKTAR'', Num 10), (''TARIH'', Ts 1709251200 None)],
             [(''TURU'', Str ''kahve''), (''MIKTAR'', Num 1), (''TARIH'', NA)]]\<rparr>
   \<and> checkbox (filtering [''TURU''])
   \<and> subseq [[(''TURU'', Str ''kahve''), (''MIKTAR'', Num 5), (''TARIH'', Ts 1709251200 None)],
             [(''TURU'', Str ''cay''), (''MIKTAR'', Num 10), (''TARIH'', Ts 1709251200 None)],
             [(''TURU'', Str ''kahve''), (''MIKTAR'', Num 1), (''TARIH'', NA)]]
        (rows (normalize sample_lib sales))"
proof -
  have c: "checkbox (filtering [''TURU''])" by (simp add: filtering_def)
  from filter_only_narrows [OF filtered_sales] c filtered_sales show ?thesis by simp
qed

text \<open>
  C5. The cache of \<^verbatim>\<open>get_data_from_excel\<close> is keyed by the call arguments, and there
  are none: the uploaded file is read from a module variable and is no part of the key.
  After a first upload has been loaded, a second upload with another ``Monthly'' sheet
  still yields the table of the first one.
\<close>

theorem stale_table_after_second_upload:
  "fst (get_data_from_excel first_upload Map.empty) = Inr sales
   \<and> read_excel second_upload ''Monthly'' = Inr flat
   \<and> flat \<noteq> sales
   \<and> fst (get_data_from_excel second_upload (snd (get_data_from_excel first_upload Map.empty)))
       = Inr sales"
  by (simp add: get_data_from_excel_def cache_data_def read_excel_def first_upload_def
      second_upload_def flat_def sales_def)

text \<open>
  C4, as stated, fails. On a text column with twenty names the user types the pattern
  \<^verbatim>\<open>(\<close>: \<^verbatim>\<open>filter_dataframe\<close> raises, it does not return the table with that
  column's filter skipped, and the run of the page ends with the error before any view.
\<close>

theorem invalid_pattern_counterexample:
  "re_search sample_lib ''('' = None
   \<and> filter_dataframe sample_lib (typing ''('') (products 20) = Inl (PatternError ''('')
   \<and> filter_dataframe sample_lib (typing ''('') (products 20)
       \<noteq> Inr (normalize sample_lib (products 20))
   \<and> fst (main_page sample_lib (typing ''('') (Some catalogue) Map.empty)
       = Inl (PatternError ''('')"
proof -
  have a: "re_search sample_lib ''('' = None" by (simp add: sample_lib_def)
  have b: "filter_dataframe sample_lib (typing ''('') (products 20) = Inl (PatternError ''('')"
    by (simp add: filter_dataframe_def typing_def filtering_def untouched_def names_normalize
        filter_column_def column_filter_def control_catalogue_URUN a)
  have c: "get_data_from_excel catalogue Map.empty = (Inr (products 20), [() \<mapsto> products 20])"
    by (simp add: get_data_from_excel_def cache_data_def read_excel_def catalogue_def)
  show ?thesis using a b c by (simp add: main_page_def)
qed

text \<open>
  C4, amended. No branch of \<^verbatim>\<open>filter_dataframe\<close> catches the error of a pattern.
  When the loop reaches a column whose control is the text input, and the text typed is
  not empty and not a valid pattern, \<^verbatim>\<open>filter_dataframe\<close> raises the pattern error:
  no table is returned, the columns selected after it are not reached, and a page run that
  loaded the table ends with that error instead of a view.
\<close>

theorem invalid_pattern_raises:
  assumes "checkbox U"
    and "choose_columns U (names (normalize L df)) = before @ column # rest"
    and "filter_columns L U (normalize L df) before = Inr df'"
    and "control df' column = Inr (TextInput l)"
    and "text_input U (TextInput l) \<noteq> []"
    and "re_search L (text_input U (TextInput l)) = None"
  shows "filter_dataframe L U df = Inl (PatternError (text_input U (TextInput l)))
       \<and> (get_data_from_excel file cache = (Inr df, cache') \<longrightarrow>
            main_page L U (Some file) cache
              = (Inl (PatternError (text_input U (TextInput l))), cache'))"
proof -
  have "filter_column L U df' column = Inl (PatternError (text_input U (TextInput l)))"
    using assms(4-6) by (simp add: filter_column_def column_filter_def)
  then have "filter_columns L U (normalize L df) (before @ column # rest)
               = Inl (PatternError (text_input U (TextInput l)))"
    using assms(3) by (simp add: filter_columns_append)
  then have f: "filter_dataframe L U df = Inl (PatternError (text_input U (TextInput l)))"
    using assms(1,2) by (simp add: filter_dataframe_def)
  then show ?thesis by (simp add: main_page_def)
qed

theorem invalid_pattern_raises_witness:
  "checkbox (typing ''('')
   \<and> choose_columns (typing ''('') (names (normalize sample_lib (products 20))) = [] @ ''URUN'' # []
   \<and> filter_columns sample_lib (typing ''('') (normalize sample_lib (products 20)) []
       = Inr (normalize sample_lib (products 20))
   \<and> control (normalize sample_lib (products 20)) ''URUN''
       = Inr (TextInput ''Substring or regex in URUN'')
   \<and> text_input (typing ''('') (TextInput ''Substring or regex in URUN'') = ''(''
   \<and> re_search sample_lib ''('' = None
   \<and> get_data_from_excel catalogue Map.empty = (Inr (products 20), [() \<mapsto> products 20])
   \<and> filter_dataframe sample_lib (typing ''('') (products 20) = Inl (PatternError ''('')
   \<and> main_page sample_lib (typing ''('') (Some catalogue) Map.empty
       = (Inl (PatternError ''(''), [() \<mapsto> products 20])"
proof -
  have 1: "checkbox (typing ''('')" by (simp add: typing_def filtering_def)
  have 2: "choose_columns (typing ''('') (names (normalize sample_lib (products 20)))
             = [] @ ''URUN'' # []"
    by (simp add: typing_def filtering_def)
  have 3: "filter_columns sample_lib (typing ''('') (normalize sample_lib (products 20)) []
             = Inr (normalize sample_lib (products 20))"
    by simp
  have t: "text_input (typing ''('') (TextInput ''Substring or regex in URUN'') = ''(''"
    by (simp add: typing_def)
  have 5: "text_input (typing ''('') (TextInput ''Substring or regex in URUN'') \<noteq> []"
    by (simp add: t)
  have 6: "re_search sample_lib (text_input (typing ''('') (TextInput ''Substring or regex in URUN''))
             = None"
    by (simp add: t sample_lib_def)
  have c: "get_data_from_excel catalogue Map.empty = (Inr (products 20), [() \<mapsto> products 20])"
    by (simp add: get_data_from_excel_def cache_data_def read_excel_def catalogue_def)
  note r = invalid_pattern_raises [OF 1 2 3 control_catalogue_URUN 5 6,
      of catalogue Map.empty "[() \<mapsto> products 20]"]
  from r c have m: "main_page sample_lib (typing ''('') (Some catalogue) Map.empty
       = (Inl (PatternError ''(''), [() \<mapsto> products 20])"
    by (simp only: t)
  from r have f: "filter_dataframe sample_lib (typing ''('') (products 20) = Inl (PatternError ''('')"
    by (simp only: t)
  from 6 have p6: "re_search sample_lib ''('' = None" by (simp only: t)
  show ?thesis
    by (intro conjI) (fact 1, fact 2, fact 3, fact control_catalogue_URUN, fact t, fact p6,
        fact c, fact f, fact m)
qed




text \<open>
  C8. \<^verbatim>\<open>filter_dataframe\<close> never writes into the frame it is given. In the store
  of frame objects, every object that existed before the call, the argument among them, is
  the same after it: the normalisation pass writes into the copy made on line 366, and each
  column filter makes a new object. The object returned holds the table the value-level
  function computes, and with filtering on it is never one of the earlier objects.
\<close>

theorem original_never_mutated:
  assumes "df < length h" and "filter_dataframe_heap L U df h = (res, h')"
  shows "take (length h) h' = h \<and> h' ! df = h ! df
       \<and> (case res of
            Inl e \<Rightarrow> filter_dataframe L U (h ! df) = Inl e
          | Inr r \<Rightarrow> r < length h' \<and> filter_dataframe L U (h ! df) = Inr (h' ! r)
                    \<and> (checkbox U \<longrightarrow> length h \<le> r))"
proof (cases "checkbox U")
  case False
  with assms show ?thesis by (auto simp: filter_dataframe_heap_def filter_dataframe_def)
next
  case True
  let ?h1 = "h @ [h ! df]"
  let ?h2 = "h @ [normalize L (h ! df)]"
  have n: "normalize_in_place L (length h) ?h1 = ?h2"
    by (simp add: normalize_in_place_eq)
  have run: "filter_columns_heap L U (length h) ?h2
               (choose_columns U (names (normalize L (h ! df)))) = (res, h')"
    using assms(2) True by (simp add: filter_dataframe_heap_def Let_def n)
  have "length h < length ?h2" by simp
  note fr = filter_columns_heap_frame [OF this run]
  from fr have t: "take (Suc (length h)) h' = ?h2" by simp
  have "take (length h) h' = take (length h) (take (Suc (length h)) h')"
    by (simp add: min_def)
  also have "\<dots> = h" by (simp only: t) simp
  finally have frame: "take (length h) h' = h" .
  have "h' ! df = take (length h) h' ! df" using assms(1) by simp
  then have same: "h' ! df = h ! df" by (simp only: frame)
  have f: "filter_dataframe L U (h ! df)
             = filter_columns L U (normalize L (h ! df))
                 (choose_columns U (names (normalize L (h ! df))))"
    using True by (simp add: filter_dataframe_def Let_def)
  show ?thesis
  proof (cases res)
    case (Inl e)
    with fr frame same f show ?thesis by simp
  next
    case (Inr r)
    with fr frame same f show ?thesis by simp
  qed
qed

theorem original_never_mutated_witness:
  "0 < length [sales]
   \<and> checkbox coffee_only
   \<and> fst (filter_dataframe_heap sample_lib coffee_only 0 [sales]) = Inr 2
   \<and> length (snd (filter_dataframe_heap sample_lib coffee_only 0 [sales])) = 3
   \<and> snd (filter_dataframe_heap sample_lib coffee_only 0 [sales]) ! 0 = sales
   \<and> snd (filter_dataframe_heap sample_lib coffee_only 0 [sales]) ! 1 \<noteq> sales
   \<and> filter_dataframe sample_lib coffee_only sales
       = Inr (snd (filter_dataframe_heap sample_lib coffee_only 0 [sales]) ! 2)
   \<and> length (rows (snd (filter_dataframe_heap sample_lib coffee_only 0 [sales]) ! 2)) = 2"
proof -
  let ?run = "filter_dataframe_heap sample_lib coffee_only 0 [sales]"
  have a: "0 < length [sales]" by simp
  have b: "?run = (fst ?run, snd ?run)" by simp
  have c: "checkbox coffee_only" by (simp add: coffee_only_def filtering_def)
  note t = original_never_mutated [OF a b]
  from t have same: "snd ?run ! 0 = sales" by simp
  from t have "filter_dataframe sample_lib coffee_only ([sales] ! 0) = Inr (snd ?run ! 2)"
    by (simp only: heap_run_on_sales(1) sum.case)
  then have res: "filter_dataframe sample_lib coffee_only sales = Inr (snd ?run ! 2)"
    by simp
  show ?thesis
    by (intro conjI) (fact a, fact c, fact heap_run_on_sales(1), fact heap_run_on_sales(2),
        fact same, fact heap_run_on_sales(3), fact res, fact heap_run_on_sales(4))
qed

text \<open>
  C7. The two selections of the Top 25 view. Each has 25 rows, or all rows of a shorter
  table. The rows left out of the top selection have no larger quantity than any row in it,
  and the rows left out of the bottom selection no smaller one; a row without a quantity is
  taken only after every row with one. The top selection is in falling and the bottom
  selection in rising order of quantity. Among rows of equal quantity the selected ones are
  the first seen, in their order of appearance. With at least 50 distinct quantities in the
  table the two selections share no row. The top 2 of the quantities 5, 10, 1 are 10, 5.
\<close>

theorem top_25_selection:
  assumes "show_tab4 df = Inr (dfx, dfy)"
  shows "length (rows dfx) = min 25 (length (rows df))
       \<and> length (rows dfy) = min 25 (length (rows df))
       \<and> (\<exists>rest. mset (rows dfx @ rest) = mset (rows df)
            \<and> (\<forall>r\<in>set (rows dfx). \<forall>s\<in>set rest.
                  has_quantity s \<longrightarrow> has_quantity r \<and> quantity s \<le> quantity r))
       \<and> (\<exists>rest. mset (rows dfy @ rest) = mset (rows df)
            \<and> (\<forall>r\<in>set (rows dfy). \<forall>s\<in>set rest.
                  has_quantity s \<longrightarrow> has_quantity r \<and> quantity r \<le> quantity s))
       \<and> sorted_wrt (\<lambda>r s. has_quantity s \<longrightarrow> has_quantity r \<and> quantity s \<le> quantity r) (rows dfx)
       \<and> sorted_wrt (\<lambda>r s. has_quantity s \<longrightarrow> has_quantity r \<and> quantity r \<le> quantity s) (rows dfy)
       \<and> (\<forall>k. prefix (filter (\<lambda>r. has_quantity r \<and> quantity r = k) (rows dfx))
                 (filter (\<lambda>r. has_quantity r \<and> quantity r = k) (rows df)))
       \<and> (\<forall>k. prefix (filter (\<lambda>r. has_quantity r \<and> quantity r = k) (rows dfy))
                 (filter (\<lambda>r. has_quantity r \<and> quantity r = k) (rows df)))
       \<and> (50 \<le> card (quantity ` {r \<in> set (rows df). has_quantity r}) \<longrightarrow>
            set (rows dfx) \<inter> set (rows dfy) = {})
       \<and> map_sum id (\<lambda>t. series t ''MIKTAR'') (nlargest 2 ''MIKTAR'' sales) = Inr [Num 10, Num 5]"
proof -
  note r = show_tab4_rows [OF assms]
  have 1: "length (rows dfx) = min 25 (length (rows df))"
    by (simp add: r(1) length_ranked min.commute)
  have 2: "length (rows dfy) = min 25 (length (rows df))"
    by (simp add: r(2) length_ranked min.commute)
  have 3: "\<exists>rest. mset (rows dfx @ rest) = mset (rows df)
            \<and> (\<forall>r\<in>set (rows dfx). \<forall>s\<in>set rest.
                  has_quantity s \<longrightarrow> has_quantity r \<and> quantity s \<le> quantity r)"
    unfolding r(1) by (rule largest_first)
  have 4: "\<exists>rest. mset (rows dfy @ rest) = mset (rows df)
            \<and> (\<forall>r\<in>set (rows dfy). \<forall>s\<in>set rest.
                  has_quantity s \<longrightarrow> has_quantity r \<and> quantity r \<le> quantity s)"
    unfolding r(2) by (rule smallest_first)
  have 5: "sorted_wrt (\<lambda>r s. has_quantity s \<longrightarrow> has_quantity r \<and> quantity s \<le> quantity r) (rows dfx)"
    unfolding r(1) by (rule falling_order)
  have 6: "sorted_wrt (\<lambda>r s. has_quantity s \<longrightarrow> has_quantity r \<and> quantity r \<le> quantity s) (rows dfy)"
    unfolding r(2) by (rule rising_order)
  have 7: "\<forall>k. prefix (filter (\<lambda>r. has_quantity r \<and> quantity r = k) (rows dfx))
                 (filter (\<lambda>r. has_quantity r \<and> quantity r = k) (rows df))"
    unfolding r(1) by (intro allI ties_first_seen) simp
  have 8: "\<forall>k. prefix (filter (\<lambda>r. has_quantity r \<and> quantity r = k) (rows dfy))
                 (filter (\<lambda>r. has_quantity r \<and> quantity r = k) (rows df))"
    unfolding r(2) by (intro allI ties_first_seen) simp
  have 9: "50 \<le> card (quantity ` {r \<in> set (rows df). has_quantity r}) \<longrightarrow>
            set (rows dfx) \<inter> set (rows dfy) = {}"
    unfolding r(1) r(2) by (intro impI disjoint_selections) simp
  show ?thesis
    by (intro conjI) (fact 1, fact 2, fact 3, fact 4, fact 5, fact 6, fact 7, fact 8, fact 9,
        fact top_2_example)
qed

theorem top_25_selection_witness:
  "show_tab4 (products 50) =
     Inr ((products 50)\<lparr>rows := take 25 (ranked uminus ''MIKTAR'' (rows (products 50)))\<rparr>,
          (products 50)\<lparr>rows := take 25 (ranked id ''MIKTAR'' (rows (products 50)))\<rparr>)
   \<and> 50 \<le> card (quantity ` {r \<in> set (rows (products 50)). has_quantity r})
   \<and> length (take 25 (ranked uminus ''MIKTAR'' (rows (products 50)))) = 25
   \<and> length (take 25 (ranked id ''MIKTAR'' (rows (products 50)))) = 25
   \<and> set (take 25 (ranked uminus ''MIKTAR'' (rows (products 50))))
       \<inter> set (take 25 (ranked id ''MIKTAR'' (rows (products 50)))) = {}
   \<and> map quantity (take 25 (ranked uminus ''MIKTAR'' (rows (products 50)))) =
       [49, 48, 47, 46, 45, 44, 43, 42, 41, 40, 39, 38, 37, 36, 35, 34, 33, 32, 31, 30, 29, 28,
        27, 26, 25]
   \<and> map quantity (take 25 (ranked id ''MIKTAR'' (rows (products 50)))) =
       [0, 1, 2, 3, 4, 5, 6, 7, 8, 9, 10, 11, 12, 13, 14, 15, 16, 17, 18, 19, 20, 21, 22, 23, 24]"
proof -
  note t = top_25_selection [OF show_tab4_products]
  from t have a: "length (take 25 (ranked uminus ''MIKTAR'' (rows (products 50)))) = 25"
    by (simp add: fifty_products(2))
  from t have b: "length (take 25 (ranked id ''MIKTAR'' (rows (products 50)))) = 25"
    by (simp add: fifty_products(2))
  from t fifty_products(1)
  have c: "set (take 25 (ranked uminus ''MIKTAR'' (rows (products 50))))
       \<inter> set (take 25 (ranked id ''MIKTAR'' (rows (products 50)))) = {}"
    by simp
  show ?thesis
    by (intro conjI) (fact show_tab4_products, fact fifty_products(1), fact a, fact b, fact c,
        fact selections_of_products(1), fact selections_of_products(2))
qed

end
